theory Spec2Isabelle
  imports Main
begin

section \<open>Persistence schema (blog/models.py)\<close>

text \<open>
  Primary keys are natural numbers and timestamps are integers (seconds on some clock).
  A table is the list of its rows; for the two tables the views insert into, the state
  also holds the last key the table's sequence has given out.  \<open>User\<close> is the framework's identity entity, of which
  the views use the primary key and the username only.
\<close>

type_synonym pk = nat
type_synonym datetime = int

record User =
  user_id :: pk
  username :: string

record Category =
  category_id :: pk
  category_is_published :: bool
  category_created_at :: datetime
  category_title :: string
  category_description :: string
  category_slug :: string

record Location =
  location_id :: pk
  location_is_published :: bool
  location_created_at :: datetime
  location_name :: string

record Post =
  post_id :: pk
  post_is_published :: bool
  post_created_at :: datetime
  post_author :: pk
  post_title :: string
  post_text :: string
  post_pub_date :: datetime
  post_location :: "pk option"
  post_category :: "pk option"

record Comment =
  comment_id :: pk
  comment_text :: string
  comment_post :: pk
  comment_created_at :: datetime
  comment_author :: pk

record database =
  User_objects :: "User list"
  Category_objects :: "Category list"
  Location_objects :: "Location list"
  Post_objects :: "Post list"
  Comment_objects :: "Comment list"
  Post_sequence :: pk
  Comment_sequence :: pk

text \<open>
  What the storage layer guarantees of every state: primary keys are unique per table,
  and so are usernames and category slugs (\<open>unique=True\<close>).
\<close>

definition unique_keys :: "database \<Rightarrow> bool" where
  "unique_keys db \<longleftrightarrow>
     distinct (map user_id (User_objects db)) \<and>
     distinct (map username (User_objects db)) \<and>
     distinct (map category_id (Category_objects db)) \<and>
     distinct (map category_slug (Category_objects db)) \<and>
     distinct (map location_id (Location_objects db)) \<and>
     distinct (map post_id (Post_objects db)) \<and>
     distinct (map comment_id (Comment_objects db))"

subsection \<open>The \<open>on_delete\<close> options of the foreign keys\<close>

datatype on_delete = CASCADE | SET_NULL

definition Post_author_on_delete :: on_delete where
  "Post_author_on_delete = CASCADE"

definition Post_location_on_delete :: on_delete where
  "Post_location_on_delete = SET_NULL"

definition Post_category_on_delete :: on_delete where
  "Post_category_on_delete = SET_NULL"

definition Comment_post_on_delete :: on_delete where
  "Comment_post_on_delete = CASCADE"

definition Comment_author_on_delete :: on_delete where
  "Comment_author_on_delete = CASCADE"

text \<open>
  What deleting referenced rows does to a referencing table: \<open>refers\<close> tells the rows that
  point to a deleted row, \<open>null\<close> clears the reference.  The result is the rows deleted in
  turn and the table that remains.
\<close>

definition collect :: "on_delete \<Rightarrow> ('r \<Rightarrow> bool) \<Rightarrow> ('r \<Rightarrow> 'r) \<Rightarrow> 'r list \<Rightarrow> 'r list \<times> 'r list" where
  "collect od refers null rows =
     (case od of
        CASCADE \<Rightarrow> (filter refers rows, filter (\<lambda>r. \<not> refers r) rows)
      | SET_NULL \<Rightarrow> ([], map (\<lambda>r. if refers r then null r else r) rows))"

definition Comment_delete :: "database \<Rightarrow> Comment \<Rightarrow> database" where
  "Comment_delete db comment =
     db\<lparr>Comment_objects := filter (\<lambda>c. comment_id c \<noteq> comment_id comment) (Comment_objects db)\<rparr>"

definition Post_delete :: "database \<Rightarrow> Post \<Rightarrow> database" where
  "Post_delete db post =
     (let (gone, comments) =
            collect Comment_post_on_delete (\<lambda>c. comment_post c = post_id post) (\<lambda>c. c)
              (Comment_objects db)
      in db\<lparr>Post_objects := filter (\<lambda>p. post_id p \<noteq> post_id post) (Post_objects db),
            Comment_objects := comments\<rparr>)"

definition Location_delete :: "database \<Rightarrow> pk \<Rightarrow> database" where
  "Location_delete db lid =
     (let (gone, posts) =
            collect Post_location_on_delete (\<lambda>p. post_location p = Some lid)
              (\<lambda>p. p\<lparr>post_location := None\<rparr>) (Post_objects db);
          (gone', comments) =
            collect Comment_post_on_delete (\<lambda>c. comment_post c \<in> set (map post_id gone))
              (\<lambda>c. c) (Comment_objects db)
      in db\<lparr>Location_objects := filter (\<lambda>l. location_id l \<noteq> lid) (Location_objects db),
            Post_objects := posts,
            Comment_objects := comments\<rparr>)"

definition Category_delete :: "database \<Rightarrow> pk \<Rightarrow> database" where
  "Category_delete db cid =
     (let (gone, posts) =
            collect Post_category_on_delete (\<lambda>p. post_category p = Some cid)
              (\<lambda>p. p\<lparr>post_category := None\<rparr>) (Post_objects db);
          (gone', comments) =
            collect Comment_post_on_delete (\<lambda>c. comment_post c \<in> set (map post_id gone))
              (\<lambda>c. c) (Comment_objects db)
      in db\<lparr>Category_objects := filter (\<lambda>c. category_id c \<noteq> cid) (Category_objects db),
            Post_objects := posts,
            Comment_objects := comments\<rparr>)"

definition User_delete :: "database \<Rightarrow> pk \<Rightarrow> database" where
  "User_delete db uid =
     (let (gone, posts) =
            collect Post_author_on_delete (\<lambda>p. post_author p = uid) (\<lambda>p. p) (Post_objects db);
          (gone', comments) =
            collect Comment_author_on_delete (\<lambda>c. comment_author c = uid) (\<lambda>c. c)
              (Comment_objects db);
          (gone'', comments') =
            collect Comment_post_on_delete (\<lambda>c. comment_post c \<in> set (map post_id gone))
              (\<lambda>c. c) comments
      in db\<lparr>User_objects := filter (\<lambda>u. user_id u \<noteq> uid) (User_objects db),
            Post_objects := posts,
            Comment_objects := comments'\<rparr>)"

section \<open>Visibility and query layer (blog/views.py)\<close>

datatype error = Http404 | MultipleObjectsReturned | ValueError | TypeError

text \<open>
  The keyword arguments the views pass to \<open>filter\<close> and \<open>get_object_or_404\<close> on posts.
  \<open>category__is_published\<close> follows the foreign key with an inner join, so a post whose
  category is null matches no such lookup.
\<close>

datatype lookup =
    Q_id pk
  | Q_author pk
  | Q_category pk
  | Q_is_published bool
  | Q_category__is_published bool
  | Q_pub_date__lte datetime

fun matches :: "database \<Rightarrow> lookup \<Rightarrow> Post \<Rightarrow> bool" where
  "matches db (Q_id i) p = (post_id p = i)"
| "matches db (Q_author u) p = (post_author p = u)"
| "matches db (Q_category c) p = (post_category p = Some c)"
| "matches db (Q_is_published b) p = (post_is_published p = b)"
| "matches db (Q_category__is_published b) p =
     (case post_category p of
        None \<Rightarrow> False
      | Some cid \<Rightarrow> list_ex (\<lambda>c. category_id c = cid \<and> category_is_published c = b)
                      (Category_objects db))"
| "matches db (Q_pub_date__lte t) p = (post_pub_date p \<le> t)"

definition Post_filter :: "database \<Rightarrow> lookup list \<Rightarrow> Post list \<Rightarrow> Post list" where
  "Post_filter db lookups rows = filter (\<lambda>p. list_all (\<lambda>l. matches db l p) lookups) rows"

fun get_object_or_404 :: "'r list \<Rightarrow> error + 'r" where
  "get_object_or_404 [] = Inl Http404"
| "get_object_or_404 [r] = Inr r"
| "get_object_or_404 rows = Inl MultipleObjectsReturned"

definition annotate_comment_count :: "database \<Rightarrow> Post list \<Rightarrow> (Post \<times> nat) list" where
  "annotate_comment_count db rows =
     map (\<lambda>p. (p, length (filter (\<lambda>c. comment_post c = post_id p) (Comment_objects db)))) rows"

definition order_by_minus_pub_date :: "(Post \<times> nat) list \<Rightarrow> (Post \<times> nat) list" where
  "order_by_minus_pub_date rows = sort_key (\<lambda>r. - post_pub_date (fst r)) rows"

definition get_posts_with_comments :: "database \<Rightarrow> datetime \<Rightarrow> (Post \<times> nat) list" where
  "get_posts_with_comments db now =
     order_by_minus_pub_date
       (annotate_comment_count db
          (Post_filter db
             [Q_is_published True, Q_category__is_published True, Q_pub_date__lte now]
             (Post_objects db)))"

text \<open>
  The framework's paginator, as \<open>get_paginator\<close> calls it: a page number that is absent
  or not an integer (\<open>None\<close>) gives the first page, one out of range the last page.
\<close>

definition num_pages :: "nat \<Rightarrow> nat \<Rightarrow> nat" where
  "num_pages count per_page = (if count = 0 then 1 else (count + per_page - 1) div per_page)"

definition get_page :: "'a list \<Rightarrow> nat \<Rightarrow> int option \<Rightarrow> 'a list" where
  "get_page object_list per_page number =
     (let last_page = num_pages (length object_list) per_page;
          n = (case number of
                 None \<Rightarrow> 1
               | Some i \<Rightarrow> if i < 1 \<or> int last_page < i then last_page else nat i)
      in take per_page (drop ((n - 1) * per_page) object_list))"

section \<open>Requests, forms and responses\<close>

text \<open>
  A request carries the requester (\<open>None\<close> for the anonymous user), the HTTP method, the
  submitted form data, the uploaded files and the \<open>page\<close> query parameter (\<open>None\<close>
  when it is absent or not an integer).
\<close>

type_synonym QueryDict = "(string \<times> string) list"

record request =
  user :: "User option"
  http_method :: string
  POST :: QueryDict
  FILES :: QueryDict
  GET_page :: "int option"

text \<open>
  The form classes live in blog/forms.py and are parameters of the views: given the
  submitted data and the instance the form was built on (\<open>None\<close> for a new object),
  a form class answers the field errors of its validation and the instance carrying the
  cleaned fields.  The data are valid when there is no error.
\<close>

type_synonym ErrorDict = "(string \<times> string) list"

type_synonym 'i form_class = "QueryDict \<Rightarrow> 'i option \<Rightarrow> ErrorDict \<times> 'i"

record forms =
  PostForm :: "Post form_class"
  CommentForm :: "Comment form_class"

datatype 'i form = Form (form_data: "QueryDict option") (form_instance: "'i option")

definition or_None :: "QueryDict \<Rightarrow> QueryDict option" where
  "or_None d = (if d = [] then None else Some d)"

text \<open>
  \<open>PostForm(request.POST or None, files=request.FILES or None)\<close>: a form is bound when
  it is given data or files, and files alone bind it to empty data.  No field of the
  models holds a file, so the form classes read the data only.
\<close>

definition data_or_files :: "QueryDict \<Rightarrow> QueryDict \<Rightarrow> QueryDict option" where
  "data_or_files d f = (if d \<noteq> [] then Some d else if f \<noteq> [] then Some [] else None)"

text \<open>
  An unbound form has no errors and is never valid; a bound form is valid when its class
  finds no error, and only then yields the cleaned instance.
\<close>

definition form_errors :: "'i form_class \<Rightarrow> 'i form \<Rightarrow> ErrorDict" where
  "form_errors cls f =
     (case form_data f of None \<Rightarrow> [] | Some d \<Rightarrow> fst (cls d (form_instance f)))"

definition is_valid :: "'i form_class \<Rightarrow> 'i form \<Rightarrow> bool" where
  "is_valid cls f \<longleftrightarrow> form_data f \<noteq> None \<and> form_errors cls f = []"

definition cleaned :: "'i form_class \<Rightarrow> 'i form \<Rightarrow> 'i option" where
  "cleaned cls f =
     (case form_data f of
        None \<Rightarrow> None
      | Some d \<Rightarrow> if is_valid cls f then Some (snd (cls d (form_instance f))) else None)"

datatype url = Login_url | Index_url | Post_detail_url pk | Profile_url string

datatype template_context =
    Form_context "Post form"
  | Comment_context Comment "Comment form option"
  | Detail_context Post "Comment list" "Comment form"
  | Profile_context User "(Post \<times> nat) list"

datatype response = Redirect url | Render string template_context

type_synonym outcome = "error + response \<times> database"

subsection \<open>Saving\<close>

text \<open>
  Saving a new row assigns the next key of the table's sequence, which never gives out a
  key twice, and \<open>created_at\<close> (\<open>auto_now_add\<close>); saving an existing row rewrites the
  row of its primary key and keeps both.
\<close>

definition Post_save_new :: "database \<Rightarrow> datetime \<Rightarrow> Post \<Rightarrow> database" where
  "Post_save_new db now p =
     db\<lparr>Post_objects := Post_objects db @
          [p\<lparr>post_id := Suc (Post_sequence db), post_created_at := now\<rparr>],
        Post_sequence := Suc (Post_sequence db)\<rparr>"

definition Post_save :: "database \<Rightarrow> Post \<Rightarrow> Post \<Rightarrow> database" where
  "Post_save db old p =
     db\<lparr>Post_objects :=
          map (\<lambda>q. if post_id q = post_id old
                    then p\<lparr>post_id := post_id old, post_created_at := post_created_at old\<rparr>
                    else q)
              (Post_objects db)\<rparr>"

definition Comment_save_new :: "database \<Rightarrow> datetime \<Rightarrow> Comment \<Rightarrow> database" where
  "Comment_save_new db now c =
     db\<lparr>Comment_objects := Comment_objects db @
          [c\<lparr>comment_id := Suc (Comment_sequence db), comment_created_at := now\<rparr>],
        Comment_sequence := Suc (Comment_sequence db)\<rparr>"

definition Comment_save :: "database \<Rightarrow> Comment \<Rightarrow> Comment \<Rightarrow> database" where
  "Comment_save db old c =
     db\<lparr>Comment_objects :=
          map (\<lambda>q. if comment_id q = comment_id old
                    then c\<lparr>comment_id := comment_id old,
                           comment_created_at := comment_created_at old\<rparr>
                    else q)
              (Comment_objects db)\<rparr>"

subsection \<open>The requester\<close>

text \<open>
  \<open>request.user != obj.author\<close> compares primary keys, and the anonymous user differs
  from every stored user.  Assigning \<open>request.user\<close> to a foreign key to \<open>User\<close> raises
  \<open>ValueError\<close> when the requester is anonymous.
\<close>

definition is_author :: "request \<Rightarrow> pk \<Rightarrow> bool" where
  "is_author request author \<longleftrightarrow> map_option user_id (user request) = Some author"

definition user_instance :: "request \<Rightarrow> error + User" where
  "user_instance request = (case user request of None \<Rightarrow> Inl ValueError | Some u \<Rightarrow> Inr u)"

definition login_required ::
  "(database \<Rightarrow> datetime \<Rightarrow> request \<Rightarrow> outcome) \<Rightarrow> database \<Rightarrow> datetime \<Rightarrow> request \<Rightarrow> outcome" where
  "login_required view db now request =
     (if user request = None then Inr (Redirect Login_url, db) else view db now request)"

section \<open>Listings\<close>

definition get_paginator :: "request \<Rightarrow> 'a list \<Rightarrow> nat \<Rightarrow> 'a list" where
  "get_paginator request queryset per_page = get_page queryset per_page (GET_page request)"

definition IndexView_get_queryset :: "database \<Rightarrow> datetime \<Rightarrow> (Post \<times> nat) list" where
  "IndexView_get_queryset db now = get_posts_with_comments db now"

definition CategoryPostsView_get_category :: "database \<Rightarrow> string \<Rightarrow> error + Category" where
  "CategoryPostsView_get_category db category_slug' =
     get_object_or_404
       (filter (\<lambda>c. category_slug c = category_slug' \<and> category_is_published c = True)
          (Category_objects db))"

definition CategoryPostsView_get_queryset ::
  "database \<Rightarrow> datetime \<Rightarrow> string \<Rightarrow> error + (Post \<times> nat) list" where
  "CategoryPostsView_get_queryset db now category_slug' =
     (case CategoryPostsView_get_category db category_slug' of
        Inl e \<Rightarrow> Inl e
      | Inr category \<Rightarrow>
          Inr (filter (\<lambda>r. matches db (Q_category (category_id category)) (fst r))
                 (get_posts_with_comments db now)))"

definition CategoryPostsView_page_obj ::
  "database \<Rightarrow> datetime \<Rightarrow> request \<Rightarrow> string \<Rightarrow> error + (Post \<times> nat) list" where
  "CategoryPostsView_page_obj db now request category_slug' =
     (case CategoryPostsView_get_queryset db now category_slug' of
        Inl e \<Rightarrow> Inl e
      | Inr posts \<Rightarrow> Inr (get_paginator request posts 10))"

text \<open>The queryset \<open>posts\<close> that \<open>profile\<close> hands to the paginator.\<close>

definition profile_posts :: "database \<Rightarrow> datetime \<Rightarrow> request \<Rightarrow> User \<Rightarrow> (Post \<times> nat) list" where
  "profile_posts db now request profile_user =
     order_by_minus_pub_date
       (annotate_comment_count db
          (if is_author request (user_id profile_user)
           then Post_filter db [Q_author (user_id profile_user)] (Post_objects db)
           else Post_filter db
                  [Q_author (user_id profile_user), Q_is_published True,
                   Q_category__is_published True, Q_pub_date__lte now]
                  (Post_objects db)))"

definition profile :: "database \<Rightarrow> datetime \<Rightarrow> request \<Rightarrow> string \<Rightarrow> outcome" where
  "profile db now request username' =
     (case get_object_or_404 (filter (\<lambda>u. username u = username') (User_objects db)) of
        Inl e \<Rightarrow> Inl e
      | Inr profile_user \<Rightarrow>
          Inr (Render ''blog/profile.html''
                 (Profile_context profile_user
                    (get_paginator request (profile_posts db now request profile_user) 10)),
               db))"

section \<open>Post detail and the inline comment form\<close>

definition PostDetailView_get_object :: "database \<Rightarrow> datetime \<Rightarrow> request \<Rightarrow> pk \<Rightarrow> error + Post" where
  "PostDetailView_get_object db now request post_id' =
     (case get_object_or_404 (Post_filter db [Q_id post_id'] (Post_objects db)) of
        Inl e \<Rightarrow> Inl e
      | Inr post \<Rightarrow>
          if \<not> is_author request (post_author post)
          then get_object_or_404
                 (Post_filter db
                    [Q_id (post_id post), Q_is_published True, Q_category__is_published True,
                     Q_pub_date__lte now]
                    (Post_objects db))
          else Inr post)"

text \<open>\<open>Comment.Meta.ordering = ('created_at',)\<close> orders every queryset of comments.\<close>

definition Comment_filter_post :: "database \<Rightarrow> Post \<Rightarrow> Comment list" where
  "Comment_filter_post db post =
     sort_key comment_created_at
       (filter (\<lambda>c. comment_post c = post_id post) (Comment_objects db))"

definition PostDetailView_get_context_data ::
  "database \<Rightarrow> datetime \<Rightarrow> request \<Rightarrow> pk \<Rightarrow> Comment form \<Rightarrow> error + template_context" where
  "PostDetailView_get_context_data db now request post_id' form' =
     (case PostDetailView_get_object db now request post_id' of
        Inl e \<Rightarrow> Inl e
      | Inr post \<Rightarrow> Inr (Detail_context post (Comment_filter_post db post) form'))"

definition PostDetailView_get :: "database \<Rightarrow> datetime \<Rightarrow> request \<Rightarrow> pk \<Rightarrow> outcome" where
  "PostDetailView_get db now request post_id' =
     (case PostDetailView_get_object db now request post_id' of
        Inl e \<Rightarrow> Inl e
      | Inr object \<Rightarrow>
          (case PostDetailView_get_context_data db now request post_id' (Form None None) of
             Inl e \<Rightarrow> Inl e
           | Inr context' \<Rightarrow> Inr (Render ''blog/detail.html'' context', db)))"

text \<open>
  The body of \<open>PostDetailView.post\<close>: the post is resolved from the identifier of the URL,
  and the form of a POST request is bound to the submitted data.
\<close>

definition PostDetailView_post_body ::
  "forms \<Rightarrow> database \<Rightarrow> datetime \<Rightarrow> request \<Rightarrow> pk \<Rightarrow> outcome" where
  "PostDetailView_post_body F db now request post_id' =
     (case PostDetailView_get_object db now request post_id' of
        Inl e \<Rightarrow> Inl e
      | Inr object \<Rightarrow>
          (let form' = Form (Some (POST request)) None in
           case cleaned (CommentForm F) form' of
             Some comment \<Rightarrow>
               (case user_instance request of
                  Inl e \<Rightarrow> Inl e
                | Inr u \<Rightarrow>
                    Inr (Redirect (Post_detail_url (post_id object)),
                         Comment_save_new db now
                           (comment\<lparr>comment_author := user_id u,
                                    comment_post := post_id object\<rparr>)))
           | None \<Rightarrow>
               (case PostDetailView_get_context_data db now request post_id' form' of
                  Inl e \<Rightarrow> Inl e
                | Inr context' \<Rightarrow> Inr (Render ''blog/detail.html'' context', db))))"

text \<open>
  The view's dispatcher calls the handler of the request's method with the keyword
  arguments of the URL, here \<open>post_id\<close> (\<open>pk_url_kwarg\<close>).  A handler raises \<open>TypeError\<close>
  when it is given a keyword its signature does not take; \<open>None\<close> stands for a signature
  with \<open>**kwargs\<close>.  \<open>post(self, request)\<close> takes no keyword.
\<close>

definition call_with_kwargs :: "string list option \<Rightarrow> (string \<times> pk) list \<Rightarrow> outcome \<Rightarrow> outcome" where
  "call_with_kwargs signature kwargs body =
     (case signature of
        None \<Rightarrow> body
      | Some names \<Rightarrow>
          if list_all (\<lambda>kw. fst kw \<in> set names) kwargs then body else Inl TypeError)"

definition PostDetailView_post :: "forms \<Rightarrow> database \<Rightarrow> datetime \<Rightarrow> request \<Rightarrow> pk \<Rightarrow> outcome" where
  "PostDetailView_post F db now request post_id' =
     call_with_kwargs (Some []) [(''post_id'', post_id')]
       (PostDetailView_post_body F db now request post_id')"

section \<open>Mutation handlers\<close>

text \<open>
  Each handler is the decorated function: \<open>login_required\<close> around the body written in
  the source.
\<close>

definition create_post_body :: "forms \<Rightarrow> database \<Rightarrow> datetime \<Rightarrow> request \<Rightarrow> outcome" where
  "create_post_body F db now request =
     (let form' = Form (data_or_files (POST request) (FILES request)) None in
      case cleaned (PostForm F) form' of
        Some post \<Rightarrow>
          (case user_instance request of
             Inl e \<Rightarrow> Inl e
           | Inr u \<Rightarrow>
               Inr (Redirect (Profile_url (username u)),
                    Post_save_new db now (post\<lparr>post_author := user_id u\<rparr>)))
      | None \<Rightarrow> Inr (Render ''blog/create.html'' (Form_context form'), db))"

definition create_post :: "forms \<Rightarrow> database \<Rightarrow> datetime \<Rightarrow> request \<Rightarrow> outcome" where
  "create_post F db now request = login_required (create_post_body F) db now request"

definition edit_post_body :: "forms \<Rightarrow> pk \<Rightarrow> database \<Rightarrow> datetime \<Rightarrow> request \<Rightarrow> outcome" where
  "edit_post_body F post_id' db now request =
     (case get_object_or_404 (Post_filter db [Q_id post_id'] (Post_objects db)) of
        Inl e \<Rightarrow> Inl e
      | Inr post \<Rightarrow>
          if \<not> is_author request (post_author post)
          then Inr (Redirect (Post_detail_url post_id'), db)
          else
            (let form' = Form (or_None (POST request)) (Some post) in
             case cleaned (PostForm F) form' of
               Some post' \<Rightarrow> Inr (Redirect (Post_detail_url post_id'), Post_save db post post')
             | None \<Rightarrow> Inr (Render ''blog/create.html'' (Form_context form'), db)))"

definition edit_post :: "forms \<Rightarrow> database \<Rightarrow> datetime \<Rightarrow> request \<Rightarrow> pk \<Rightarrow> outcome" where
  "edit_post F db now request post_id' = login_required (edit_post_body F post_id') db now request"

definition delete_post_body :: "pk \<Rightarrow> database \<Rightarrow> datetime \<Rightarrow> request \<Rightarrow> outcome" where
  "delete_post_body post_id' db now request =
     (case get_object_or_404 (Post_filter db [Q_id post_id'] (Post_objects db)) of
        Inl e \<Rightarrow> Inl e
      | Inr post \<Rightarrow>
          if \<not> is_author request (post_author post)
          then Inr (Redirect (Post_detail_url post_id'), db)
          else
            (let form' = Form (or_None (POST request)) (Some post) in
             if http_method request = ''POST''
             then Inr (Redirect Index_url, Post_delete db post)
             else Inr (Render ''blog/create.html'' (Form_context form'), db)))"

definition delete_post :: "database \<Rightarrow> datetime \<Rightarrow> request \<Rightarrow> pk \<Rightarrow> outcome" where
  "delete_post db now request post_id' = login_required (delete_post_body post_id') db now request"

definition add_comment_body :: "forms \<Rightarrow> pk \<Rightarrow> database \<Rightarrow> datetime \<Rightarrow> request \<Rightarrow> outcome" where
  "add_comment_body F post_id' db now request =
     (case get_object_or_404 (Post_filter db [Q_id post_id'] (Post_objects db)) of
        Inl e \<Rightarrow> Inl e
      | Inr post \<Rightarrow>
          (let form' = Form (or_None (POST request)) None in
           case cleaned (CommentForm F) form' of
             Some comment \<Rightarrow>
               (case user_instance request of
                  Inl e \<Rightarrow> Inl e
                | Inr u \<Rightarrow>
                    Inr (Redirect (Post_detail_url post_id'),
                         Comment_save_new db now
                           (comment\<lparr>comment_author := user_id u,
                                    comment_post := post_id post\<rparr>)))
           | None \<Rightarrow> Inr (Redirect (Post_detail_url post_id'), db)))"

definition add_comment :: "forms \<Rightarrow> database \<Rightarrow> datetime \<Rightarrow> request \<Rightarrow> pk \<Rightarrow> outcome" where
  "add_comment F db now request post_id' =
     login_required (add_comment_body F post_id') db now request"

definition edit_comment_body ::
  "forms \<Rightarrow> pk \<Rightarrow> pk \<Rightarrow> database \<Rightarrow> datetime \<Rightarrow> request \<Rightarrow> outcome" where
  "edit_comment_body F post_id' comment_id' db now request =
     (case get_object_or_404
             (filter (\<lambda>c. comment_id c = comment_id') (Comment_objects db)) of
        Inl e \<Rightarrow> Inl e
      | Inr comment \<Rightarrow>
          if \<not> is_author request (comment_author comment)
          then Inr (Redirect (Post_detail_url post_id'), db)
          else
            (let form' = Form (or_None (POST request)) (Some comment) in
             case cleaned (CommentForm F) form' of
               Some comment' \<Rightarrow>
                 Inr (Redirect (Post_detail_url post_id'), Comment_save db comment comment')
             | None \<Rightarrow>
                 Inr (Render ''blog/comment.html'' (Comment_context comment (Some form')), db)))"

definition edit_comment ::
  "forms \<Rightarrow> database \<Rightarrow> datetime \<Rightarrow> request \<Rightarrow> pk \<Rightarrow> pk \<Rightarrow> outcome" where
  "edit_comment F db now request post_id' comment_id' =
     login_required (edit_comment_body F post_id' comment_id') db now request"

definition delete_comment_body :: "pk \<Rightarrow> pk \<Rightarrow> database \<Rightarrow> datetime \<Rightarrow> request \<Rightarrow> outcome" where
  "delete_comment_body post_id' comment_id' db now request =
     (case get_object_or_404
             (filter (\<lambda>c. comment_id c = comment_id') (Comment_objects db)) of
        Inl e \<Rightarrow> Inl e
      | Inr comment \<Rightarrow>
          if \<not> is_author request (comment_author comment)
          then Inr (Redirect (Post_detail_url post_id'), db)
          else if http_method request = ''POST''
          then Inr (Redirect (Post_detail_url post_id'), Comment_delete db comment)
          else Inr (Render ''blog/comment.html'' (Comment_context comment None), db))"

definition delete_comment :: "database \<Rightarrow> datetime \<Rightarrow> request \<Rightarrow> pk \<Rightarrow> pk \<Rightarrow> outcome" where
  "delete_comment db now request post_id' comment_id' =
     login_required (delete_comment_body post_id' comment_id') db now request"

subsection \<open>The publish predicate in the words of the specification\<close>

text \<open>
  \<open>is_published = true AND category.is_published = true AND pub_date <= now\<close>: the
  post's category is a row of the category table whose flag is set.
\<close>

definition visible :: "database \<Rightarrow> datetime \<Rightarrow> Post \<Rightarrow> bool" where
  "visible db now p \<longleftrightarrow>
     post_is_published p \<and>
     (\<exists>c \<in> set (Category_objects db). post_category p = Some (category_id c) \<and>
        category_is_published c) \<and>
     post_pub_date p \<le> now"

section \<open>A sample state\<close>

text \<open>
  Two users, one visible category, one location, and at time 100 three posts of alice:
  A published earlier, B scheduled for later, C without a category.  Post A has two comments, stored
  in the order 1, 2 and written in the order 2, 1.
\<close>

definition alice :: User where
  "alice = \<lparr>user_id = 1, username = ''alice''\<rparr>"

definition bob :: User where
  "bob = \<lparr>user_id = 2, username = ''bob''\<rparr>"

definition news :: Category where
  "news = \<lparr>category_id = 1, category_is_published = True, category_created_at = 0,
            category_title = ''News'', category_description = ''All the news'',
            category_slug = ''news''\<rparr>"

definition home :: Location where
  "home = \<lparr>location_id = 1, location_is_published = True, location_created_at = 0,
            location_name = ''Home''\<rparr>"

definition post_A :: Post where
  "post_A = \<lparr>post_id = 1, post_is_published = True, post_created_at = 10, post_author = 1,
              post_title = ''A'', post_text = ''first'', post_pub_date = 90,
              post_location = Some 1, post_category = Some 1\<rparr>"

definition post_B :: Post where
  "post_B = \<lparr>post_id = 2, post_is_published = True, post_created_at = 20, post_author = 1,
              post_title = ''B'', post_text = ''second'', post_pub_date = 200,
              post_location = None, post_category = Some 1\<rparr>"

definition post_C :: Post where
  "post_C = \<lparr>post_id = 3, post_is_published = True, post_created_at = 30, post_author = 1,
              post_title = ''C'', post_text = ''third'', post_pub_date = 50,
              post_location = None, post_category = None\<rparr>"

definition comment_1 :: Comment where
  "comment_1 = \<lparr>comment_id = 1, comment_text = ''late'', comment_post = 1,
                 comment_created_at = 95, comment_author = 2\<rparr>"

definition comment_2 :: Comment where
  "comment_2 = \<lparr>comment_id = 2, comment_text = ''early'', comment_post = 1,
                 comment_created_at = 92, comment_author = 1\<rparr>"

definition sample_db :: database where
  "sample_db = \<lparr>User_objects = [alice, bob], Category_objects = [news],
                 Location_objects = [home], Post_objects = [post_A, post_B, post_C],
                 Comment_objects = [comment_1, comment_2],
                 Post_sequence = 3, Comment_sequence = 2\<rparr>"

definition blank_post :: Post where
  "blank_post = \<lparr>post_id = 0, post_is_published = True, post_created_at = 0, post_author = 0,
                  post_title = [], post_text = [], post_pub_date = 0,
                  post_location = None, post_category = None\<rparr>"

definition blank_comment :: Comment where
  "blank_comment = \<lparr>comment_id = 0, comment_text = [], comment_post = 0,
                     comment_created_at = 0, comment_author = 0\<rparr>"

text \<open>Sample form classes: the title of a post and the text of a comment are required.\<close>

definition sample_forms :: forms where
  "sample_forms =
     \<lparr>PostForm = (\<lambda>d i.
        let p = (case i of None \<Rightarrow> blank_post | Some p \<Rightarrow> p) in
        case map_of d ''title'' of
          None \<Rightarrow> ([(''title'', ''This field is required.'')], p)
        | Some t \<Rightarrow> if t = [] then ([(''title'', ''This field is required.'')], p)
                    else ([], p\<lparr>post_title := t\<rparr>)),
      CommentForm = (\<lambda>d i.
        let c = (case i of None \<Rightarrow> blank_comment | Some c \<Rightarrow> c) in
        case map_of d ''text'' of
          None \<Rightarrow> ([(''text'', ''This field is required.'')], c)
        | Some t \<Rightarrow> if t = [] then ([(''text'', ''This field is required.'')], c)
                    else ([], c\<lparr>comment_text := t\<rparr>))\<rparr>"

definition sample_request :: "User option \<Rightarrow> string \<Rightarrow> QueryDict \<Rightarrow> request" where
  "sample_request u m d = \<lparr>user = u, http_method = m, POST = d, FILES = [], GET_page = None\<rparr>"

lemmas sample_defs =
  alice_def bob_def news_def home_def post_A_def post_B_def post_C_def comment_1_def comment_2_def
  sample_db_def blank_post_def blank_comment_def sample_forms_def sample_request_def

lemma unique_keys_sample: "unique_keys sample_db"
  by (simp add: unique_keys_def sample_defs)

section \<open>Lookups\<close>


lemma get_object_or_404_Http404: "get_object_or_404 rows = Inl Http404 \<longleftrightarrow> rows = []"
  by (cases rows rule: get_object_or_404.cases) simp_all

lemma filter_distinct_key:
  "distinct (map k rows) \<Longrightarrow> r \<in> set rows \<Longrightarrow> filter (\<lambda>x. k x = k r) rows = [r]"
proof (induction rows)
  case Nil
  then show ?case by simp
next
  case (Cons a rows)
  show ?case
  proof (cases "a = r")
    case True
    with Cons.prems have "k r \<notin> k ` set rows" by simp
    then have "filter (\<lambda>x. k x = k r) rows = []"
      by (force simp: filter_empty_conv image_iff)
    with True show ?thesis by simp
  next
    case False
    with Cons.prems have "r \<in> set rows" "k a \<noteq> k r" by auto
    with Cons show ?thesis by simp
  qed
qed

lemma filter_key_absent:
  "(\<forall>r \<in> set rows. k r \<noteq> i) \<Longrightarrow> filter (\<lambda>x. k x = i) rows = []"
  by (simp add: filter_empty_conv)

lemma matches_published_visible:
  "list_all (\<lambda>l. matches db l p)
     [Q_is_published True, Q_category__is_published True, Q_pub_date__lte now]
   \<longleftrightarrow> visible db now p"
  by (auto simp: visible_def list_ex_iff split: option.splits)

lemma fst_set_order_annotate:
  "fst ` set (order_by_minus_pub_date (annotate_comment_count db rows)) = set rows"
  by (force simp: order_by_minus_pub_date_def annotate_comment_count_def)

lemma get_posts_with_comments_set:
  "fst ` set (get_posts_with_comments db now) = {p \<in> set (Post_objects db). visible db now p}"
  unfolding get_posts_with_comments_def fst_set_order_annotate Post_filter_def
  by (auto simp only: set_filter matches_published_visible)

section \<open>The public listings\<close>

text \<open>
  C1.  For every post and every request time, the public listings hold exactly the posts
  that satisfy the publish predicate of the specification: the index listing all of them,
  the listing of a category those of the category, and a profile viewed by somebody other
  than its owner those of the profile's user.  The three listings apply the same predicate.
\<close>

theorem public_listings_exactly_visible:
  "(p \<in> fst ` set (IndexView_get_queryset db now) \<longleftrightarrow>
      p \<in> set (Post_objects db) \<and> visible db now p) \<and>
   (CategoryPostsView_get_category db slug = Inr category \<longrightarrow>
      (\<exists>rows. CategoryPostsView_get_queryset db now slug = Inr rows \<and>
         (p \<in> fst ` set rows \<longleftrightarrow>
            p \<in> set (Post_objects db) \<and> visible db now p \<and>
            post_category p = Some (category_id category)))) \<and>
   (\<not> is_author request (user_id profile_user) \<longrightarrow>
      (p \<in> fst ` set (profile_posts db now request profile_user) \<longleftrightarrow>
         p \<in> set (Post_objects db) \<and> visible db now p \<and>
         post_author p = user_id profile_user))"
proof (intro conjI impI)
  show "p \<in> fst ` set (IndexView_get_queryset db now) \<longleftrightarrow>
      p \<in> set (Post_objects db) \<and> visible db now p"
    by (simp add: IndexView_get_queryset_def get_posts_with_comments_set)
next
  assume c: "CategoryPostsView_get_category db slug = Inr category"
  have "fst ` set (filter (\<lambda>r. matches db (Q_category (category_id category)) (fst r))
                 (get_posts_with_comments db now))
        = {p \<in> fst ` set (get_posts_with_comments db now).
             post_category p = Some (category_id category)}"
    by force
  then show "\<exists>rows. CategoryPostsView_get_queryset db now slug = Inr rows \<and>
         (p \<in> fst ` set rows \<longleftrightarrow>
            p \<in> set (Post_objects db) \<and> visible db now p \<and>
            post_category p = Some (category_id category))"
    using c by (simp add: CategoryPostsView_get_queryset_def get_posts_with_comments_set)
next
  assume "\<not> is_author request (user_id profile_user)"
  then show "p \<in> fst ` set (profile_posts db now request profile_user) \<longleftrightarrow>
         p \<in> set (Post_objects db) \<and> visible db now p \<and>
         post_author p = user_id profile_user"
    unfolding profile_posts_def fst_set_order_annotate Post_filter_def
    using matches_published_visible [where db = db and now = now and p = p] by auto
qed

theorem public_listings_exactly_visible_witness:
  "post_A \<in> fst ` set (IndexView_get_queryset sample_db 100) \<and>
   CategoryPostsView_get_category sample_db ''news'' = Inr news \<and>
   (\<exists>rows. CategoryPostsView_get_queryset sample_db 100 ''news'' = Inr rows \<and>
      post_A \<in> fst ` set rows) \<and>
   \<not> is_author (sample_request (Some bob) ''GET'' []) (user_id alice) \<and>
   post_A \<in> fst ` set (profile_posts sample_db 100 (sample_request (Some bob) ''GET'' []) alice)"
proof -
  have v: "post_A \<in> set (Post_objects sample_db) \<and> visible sample_db 100 post_A \<and>
           post_category post_A = Some (category_id news) \<and> post_author post_A = user_id alice"
    by (simp add: sample_defs visible_def)
  have c: "CategoryPostsView_get_category sample_db ''news'' = Inr news"
    by (simp add: sample_defs CategoryPostsView_get_category_def)
  have n: "\<not> is_author (sample_request (Some bob) ''GET'' []) (user_id alice)"
    by (simp add: sample_defs is_author_def)
  from public_listings_exactly_visible [of post_A sample_db 100 "''news''" news "sample_request (Some bob) ''GET'' []" alice]
    v c n
  show ?thesis by blast
qed

section \<open>Pagination\<close>


lemma get_page_subset: "set (get_page xs per number) \<subseteq> set xs"
proof -
  have "set (take per (drop k xs)) \<subseteq> set xs" for k
    by (meson set_take_subset set_drop_subset subset_trans)
  then show ?thesis by (simp add: get_page_def Let_def)
qed

lemma get_page_covers:
  assumes "x \<in> set xs" "0 < per"
  shows "\<exists>n. x \<in> set (get_page xs per (Some n))"
proof -
  from assms(1) obtain i where i: "i < length xs" "xs ! i = x"
    by (auto simp: in_set_conv_nth)
  define k where "k = i div per"
  define d where "d = k * per"
  have le: "d \<le> i" by (simp add: d_def k_def)
  have lt: "i - d < per"
    using assms(2) unfolding d_def k_def by (metis minus_div_mult_eq_mod mod_less_divisor)
  have len: "length xs \<noteq> 0" using i(1) by auto
  have "k < (length xs + per - 1) div per"
  proof -
    have "i + per \<le> length xs + per - 1" using i(1) by simp
    then have "(i + per) div per \<le> (length xs + per - 1) div per"
      by (rule div_le_mono)
    moreover have "(i + per) div per = Suc k"
      using assms(2) by (simp add: div_add_self2 k_def)
    ultimately show ?thesis by simp
  qed
  then have np: "Suc k \<le> num_pages (length xs) per"
    using len by (simp add: num_pages_def)
  have page: "get_page xs per (Some (int (Suc k))) = take per (drop d xs)"
    using np by (simp add: get_page_def Let_def d_def nat_add_distrib del: of_nat_Suc)
  have "drop d xs ! (i - d) = xs ! (d + (i - d))"
    using i(1) le by (intro nth_drop) simp
  with le i(2) have "drop d xs ! (i - d) = x" by simp
  with lt have "take per (drop d xs) ! (i - d) = x" by simp
  moreover have "i - d < length (take per (drop d xs))"
    using i(1) le lt by simp
  ultimately have "x \<in> set (take per (drop d xs))"
    by (metis nth_mem)
  with page show ?thesis by metis
qed

section \<open>Resolving objects\<close>


lemma filter_distinct_key_and:
  assumes "distinct (map k rows)" "r \<in> set rows"
  shows "filter (\<lambda>x. k x = k r \<and> P x) rows = (if P r then [r] else [])"
proof -
  have "filter (\<lambda>x. k x = k r \<and> P x) rows = filter P (filter (\<lambda>x. k x = k r) rows)"
    by (simp add: conj_commute)
  with assms show ?thesis by (simp add: filter_distinct_key)
qed

lemma Post_filter_id:
  "Post_filter db [Q_id i] rows = filter (\<lambda>p. post_id p = i) rows"
  by (simp add: Post_filter_def)

lemma Post_filter_id_published:
  "Post_filter db
     [Q_id i, Q_is_published True, Q_category__is_published True, Q_pub_date__lte now] rows
   = filter (\<lambda>p. post_id p = i \<and> visible db now p) rows"
  using matches_published_visible [where db = db and now = now]
  by (simp add: Post_filter_def)

lemma get_post_present:
  assumes "distinct (map post_id (Post_objects db))" "post \<in> set (Post_objects db)"
  shows "get_object_or_404 (Post_filter db [Q_id (post_id post)] (Post_objects db)) = Inr post"
  using assms by (simp add: Post_filter_id filter_distinct_key)

lemma get_post_absent:
  assumes "\<forall>p \<in> set (Post_objects db). post_id p \<noteq> i"
  shows "get_object_or_404 (Post_filter db [Q_id i] (Post_objects db)) = Inl Http404"
  using assms by (simp add: Post_filter_id filter_key_absent)

lemma get_comment_present:
  assumes "distinct (map comment_id (Comment_objects db))" "comment \<in> set (Comment_objects db)"
  shows "get_object_or_404
           (filter (\<lambda>c. comment_id c = comment_id comment) (Comment_objects db)) = Inr comment"
  using assms by (simp add: filter_distinct_key)

lemma get_object_present:
  assumes "distinct (map post_id (Post_objects db))" "post \<in> set (Post_objects db)"
  shows "PostDetailView_get_object db now request (post_id post) =
           (if is_author request (post_author post) \<or> visible db now post
            then Inr post else Inl Http404)"
  using assms
  by (simp add: PostDetailView_get_object_def get_post_present Post_filter_id_published
      filter_distinct_key_and)

lemma get_object_absent:
  assumes "\<forall>p \<in> set (Post_objects db). post_id p \<noteq> i"
  shows "PostDetailView_get_object db now request i = Inl Http404"
  using assms by (simp add: PostDetailView_get_object_def get_post_absent)

lemma PostDetailView_get_eq:
  "PostDetailView_get db now request i =
     (case PostDetailView_get_object db now request i of
        Inl e \<Rightarrow> Inl e
      | Inr post \<Rightarrow>
          Inr (Render ''blog/detail.html''
                 (Detail_context post (Comment_filter_post db post) (Form None None)), db))"
  by (simp add: PostDetailView_get_def PostDetailView_get_context_data_def split: sum.splits)

lemma Comment_filter_post_sorted:
  "sorted (map comment_created_at (Comment_filter_post db post))"
  by (simp add: Comment_filter_post_def)

lemma Comment_filter_post_set:
  "set (Comment_filter_post db post) =
     {c \<in> set (Comment_objects db). comment_post c = post_id post}"
  by (auto simp: Comment_filter_post_def)

section \<open>The detail view and the owner\<close>

text \<open>
  C3.  A requester who is the author of a stored post finds it in the listing of their own
  profile, on one of its pages, and the detail view returns it, whatever the post's
  visibility flag, its category and its publish date.
\<close>

theorem owner_sees_own_post:
  assumes "unique_keys db"
    and "post \<in> set (Post_objects db)"
    and "u \<in> set (User_objects db)"
    and "user request = Some u"
    and "post_author post = user_id u"
  shows "post \<in> fst ` set (profile_posts db now request u) \<and>
         (\<exists>n. post \<in> fst ` set (get_page (profile_posts db now request u) 10 (Some n))) \<and>
         profile db now request (username u) =
           Inr (Render ''blog/profile.html''
                  (Profile_context u (get_paginator request (profile_posts db now request u) 10)),
                db) \<and>
         PostDetailView_get_object db now request (post_id post) = Inr post \<and>
         PostDetailView_get db now request (post_id post) =
           Inr (Render ''blog/detail.html''
                  (Detail_context post (Comment_filter_post db post) (Form None None)), db)"
proof -
  from assms(1) have d: "distinct (map post_id (Post_objects db))"
    and du: "distinct (map username (User_objects db))"
    by (simp_all add: unique_keys_def)
  from assms(4,5) have a: "is_author request (post_author post)" "is_author request (user_id u)"
    by (simp_all add: is_author_def)
  have 1: "post \<in> fst ` set (profile_posts db now request u)"
    unfolding profile_posts_def fst_set_order_annotate
    using a(2) assms(2,5) by (simp add: Post_filter_def)
  have "filter (\<lambda>x. username x = username u) (User_objects db) = [u]"
    using du assms(3) by (rule filter_distinct_key)
  then have 2: "profile db now request (username u) =
           Inr (Render ''blog/profile.html''
                  (Profile_context u (get_paginator request (profile_posts db now request u) 10)),
                db)"
    by (simp add: profile_def)
  have 3: "PostDetailView_get_object db now request (post_id post) = Inr post"
    using get_object_present [OF d assms(2), of now request] a(1) by simp
  then have 4: "PostDetailView_get db now request (post_id post) =
           Inr (Render ''blog/detail.html''
                  (Detail_context post (Comment_filter_post db post) (Form None None)), db)"
    by (simp add: PostDetailView_get_eq)
  from 1 obtain r where r: "r \<in> set (profile_posts db now request u)" "fst r = post"
    by auto
  from get_page_covers [OF r(1), of 10] r(2)
  have 5: "\<exists>n. post \<in> fst ` set (get_page (profile_posts db now request u) 10 (Some n))"
    by auto
  from 1 2 3 4 5 show ?thesis by blast
qed

theorem owner_sees_own_post_witness:
  "post_B \<in> fst ` set (profile_posts sample_db 100 (sample_request (Some alice) ''GET'' []) alice) \<and>
   PostDetailView_get_object sample_db 100 (sample_request (Some alice) ''GET'' []) 2 = Inr post_B \<and>
   post_pub_date post_B > 100"
proof -
  have h: "post_B \<in> set (Post_objects sample_db)" "alice \<in> set (User_objects sample_db)"
    "user (sample_request (Some alice) ''GET'' []) = Some alice"
    "post_author post_B = user_id alice" "post_id post_B = 2" "post_pub_date post_B > 100"
    by (simp_all add: sample_defs)
  from owner_sees_own_post [OF unique_keys_sample h(1-4), of 100] h(5,6)
  show ?thesis by simp
qed

text \<open>
  C4.  For a requester who is not the author of the post, the detail view answers
  "not found" exactly when no post has the identifier or the post of that identifier
  fails the publish predicate.
\<close>

theorem detail_not_found_iff:
  assumes "unique_keys db"
    and "\<forall>post \<in> set (Post_objects db). post_id post = i \<longrightarrow> \<not> is_author request (post_author post)"
  shows "PostDetailView_get db now request i = Inl Http404 \<longleftrightarrow>
           (\<forall>post \<in> set (Post_objects db). post_id post \<noteq> i) \<or>
           (\<exists>post \<in> set (Post_objects db). post_id post = i \<and> \<not> visible db now post)"
proof (cases "\<exists>post \<in> set (Post_objects db). post_id post = i")
  case False
  then have "PostDetailView_get_object db now request i = Inl Http404"
    by (simp add: get_object_absent)
  with False show ?thesis by (simp add: PostDetailView_get_eq)
next
  case True
  then obtain post where post: "post \<in> set (Post_objects db)" "post_id post = i" by blast
  from assms(1) have d: "distinct (map post_id (Post_objects db))"
    by (simp add: unique_keys_def)
  have only: "q = post" if "q \<in> set (Post_objects db)" "post_id q = i" for q
    using d post that by (meson distinct_map inj_onD)
  from assms(2) post have "\<not> is_author request (post_author post)" by blast
  with get_object_present [OF d post(1), of now request] post(2)
  have "PostDetailView_get_object db now request i =
          (if visible db now post then Inr post else Inl Http404)"
    by simp
  then have "PostDetailView_get db now request i = Inl Http404 \<longleftrightarrow> \<not> visible db now post"
    by (simp add: PostDetailView_get_eq)
  with post only show ?thesis by blast
qed

theorem detail_not_found_iff_witness:
  "PostDetailView_get sample_db 100 (sample_request (Some bob) ''GET'' []) 2 = Inl Http404 \<and>
   PostDetailView_get sample_db 100 (sample_request (Some bob) ''GET'' []) 7 = Inl Http404 \<and>
   PostDetailView_get sample_db 100 (sample_request (Some bob) ''GET'' []) 1 \<noteq> Inl Http404"
proof -
  let ?r = "sample_request (Some bob) ''GET'' []"
  have na: "\<forall>post \<in> set (Post_objects sample_db). post_id post = i \<longrightarrow>
              \<not> is_author ?r (post_author post)" for i
    by (simp add: sample_defs is_author_def)
  have v: "\<not> visible sample_db 100 post_B" "visible sample_db 100 post_A"
    "\<not> visible sample_db 100 post_C"
    by (simp_all add: sample_defs visible_def)
  have p: "Post_objects sample_db = [post_A, post_B, post_C]"
    "post_id post_A = 1" "post_id post_B = 2" "post_id post_C = 3"
    by (simp_all add: sample_defs)
  from detail_not_found_iff [OF unique_keys_sample na, where i = 2 and now = 100]
       detail_not_found_iff [OF unique_keys_sample na, where i = 7 and now = 100]
       detail_not_found_iff [OF unique_keys_sample na, where i = 1 and now = 100]
  show ?thesis by (simp add: p v)
qed

section \<open>Posts without a category\<close>

text \<open>
  C2 as the specification words it: a post with no category, its visibility flag set and
  its publish timestamp not after now appears in the public index listing.  Post C of the
  sample state is such a post and the index listing omits it.
\<close>

theorem uncategorised_post_hidden_counterexample:
  "post_C \<in> set (Post_objects sample_db) \<and> post_category post_C = None \<and>
   post_is_published post_C \<and> post_pub_date post_C \<le> 100 \<and>
   post_C \<notin> fst ` set (IndexView_get_queryset sample_db 100)"
  by (simp add: sample_defs IndexView_get_queryset_def get_posts_with_comments_def
      order_by_minus_pub_date_def annotate_comment_count_def Post_filter_def)

text \<open>
  C2, amended.  A post that has no category never appears in the public index listing;
  a stored post whose visibility flag is set, whose publish timestamp is not after now and
  whose category is a stored category with its visibility flag set does appear.
\<close>

theorem index_needs_visible_category:
  "(post_category p = None \<longrightarrow> p \<notin> fst ` set (IndexView_get_queryset db now)) \<and>
   (p \<in> set (Post_objects db) \<and> post_is_published p \<and> post_pub_date p \<le> now \<and>
    c \<in> set (Category_objects db) \<and> post_category p = Some (category_id c) \<and>
    category_is_published c \<longrightarrow> p \<in> fst ` set (IndexView_get_queryset db now))"
  unfolding IndexView_get_queryset_def get_posts_with_comments_set
  by (auto simp: visible_def)

theorem index_needs_visible_category_witness:
  "post_category post_C = None \<and>
   post_C \<notin> fst ` set (IndexView_get_queryset sample_db 100) \<and>
   post_category post_A = Some (category_id news) \<and>
   post_A \<in> fst ` set (IndexView_get_queryset sample_db 100)"
proof -
  have h: "post_category post_C = None"
    "post_A \<in> set (Post_objects sample_db) \<and> post_is_published post_A \<and>
     post_pub_date post_A \<le> 100 \<and> news \<in> set (Category_objects sample_db) \<and>
     post_category post_A = Some (category_id news) \<and> category_is_published news"
    by (simp_all add: sample_defs)
  from index_needs_visible_category [of post_C sample_db 100] index_needs_visible_category [of post_A sample_db 100 news] h
  show ?thesis by blast
qed

section \<open>Comments of the detail view\<close>

lemma PostDetailView_post_raises: "PostDetailView_post F db now request i = Inl TypeError"
  by (simp add: PostDetailView_post_def call_with_kwargs_def)

text \<open>
  C8.  The comments the detail view puts in its context are the comments of the post in
  ascending order of their creation timestamp: on a GET request, and in any page that the
  handler of POST requests renders.
\<close>

theorem detail_comments_ascending:
  "(PostDetailView_get db now request i = Inr (Render t (Detail_context post comments f), db') \<longrightarrow>
      sorted (map comment_created_at comments) \<and>
      set comments = {c \<in> set (Comment_objects db). comment_post c = post_id post}) \<and>
   (PostDetailView_post F db now request i = Inr (Render t (Detail_context post comments f), db') \<longrightarrow>
      sorted (map comment_created_at comments) \<and>
      set comments = {c \<in> set (Comment_objects db). comment_post c = post_id post})"
proof (intro conjI impI)
  assume "PostDetailView_get db now request i = Inr (Render t (Detail_context post comments f), db')"
  then have "comments = Comment_filter_post db post"
    by (auto simp: PostDetailView_get_eq split: sum.splits)
  then show "sorted (map comment_created_at comments)"
    "set comments = {c \<in> set (Comment_objects db). comment_post c = post_id post}"
    by (simp_all only: Comment_filter_post_sorted Comment_filter_post_set)
next
  assume "PostDetailView_post F db now request i = Inr (Render t (Detail_context post comments f), db')"
  then have "comments = Comment_filter_post db post"
    by (simp add: PostDetailView_post_raises)
  then show "sorted (map comment_created_at comments)"
    "set comments = {c \<in> set (Comment_objects db). comment_post c = post_id post}"
    by (simp_all only: Comment_filter_post_sorted Comment_filter_post_set)
qed

theorem detail_comments_ascending_witness:
  "PostDetailView_get sample_db 100 (sample_request None ''GET'' []) 1 =
     Inr (Render ''blog/detail.html'' (Detail_context post_A [comment_2, comment_1] (Form None None)),
          sample_db) \<and>
   sorted (map comment_created_at [comment_2, comment_1]) \<and>
   Comment_objects sample_db = [comment_1, comment_2]"
proof -
  have g: "PostDetailView_get sample_db 100 (sample_request None ''GET'' []) 1 =
     Inr (Render ''blog/detail.html'' (Detail_context post_A [comment_2, comment_1] (Form None None)),
          sample_db)"
    by (simp add: sample_defs PostDetailView_get_def PostDetailView_get_context_data_def
        PostDetailView_get_object_def Post_filter_def is_author_def Comment_filter_post_def)
  have o: "Comment_objects sample_db = [comment_1, comment_2]"
    by (simp add: sample_defs)
  from detail_comments_ascending [THEN conjunct1, rule_format, OF g] g o show ?thesis by simp
qed

section \<open>Authorisation of the mutation handlers\<close>

lemma login_required_authenticated:
  "user request = Some u \<Longrightarrow> login_required view db now request = view db now request"
  by (simp add: login_required_def)

lemma is_author_authenticated:
  "user request = Some u \<Longrightarrow> is_author request a \<longleftrightarrow> user_id u = a"
  by (simp add: is_author_def)

text \<open>
  C5.  When an authenticated requester who is not the author asks to edit or delete a
  stored post or comment, the handler redirects to the detail view and returns the
  database as it was: no text is modified and nothing is deleted.
\<close>

theorem non_author_change_redirects:
  assumes "unique_keys db" and "user request = Some u"
  shows "(post \<in> set (Post_objects db) \<and> post_author post \<noteq> user_id u \<longrightarrow>
            edit_post F db now request (post_id post) =
              Inr (Redirect (Post_detail_url (post_id post)), db) \<and>
            delete_post db now request (post_id post) =
              Inr (Redirect (Post_detail_url (post_id post)), db)) \<and>
         (comment \<in> set (Comment_objects db) \<and> comment_author comment \<noteq> user_id u \<longrightarrow>
            edit_comment F db now request i (comment_id comment) =
              Inr (Redirect (Post_detail_url i), db) \<and>
            delete_comment db now request i (comment_id comment) =
              Inr (Redirect (Post_detail_url i), db))"
proof (intro conjI impI)
  from assms(1) have d: "distinct (map post_id (Post_objects db))"
    and dc: "distinct (map comment_id (Comment_objects db))"
    by (simp_all add: unique_keys_def)
  {
    assume p: "post \<in> set (Post_objects db) \<and> post_author post \<noteq> user_id u"
    then have na: "\<not> is_author request (post_author post)"
      using assms(2) by (auto simp: is_author_authenticated)
    from p have g: "get_object_or_404 (Post_filter db [Q_id (post_id post)] (Post_objects db)) = Inr post"
      using d by (simp add: get_post_present)
    show "edit_post F db now request (post_id post) =
            Inr (Redirect (Post_detail_url (post_id post)), db)"
      using na g assms(2)
      by (simp add: edit_post_def login_required_authenticated edit_post_body_def)
    show "delete_post db now request (post_id post) =
            Inr (Redirect (Post_detail_url (post_id post)), db)"
      using na g assms(2)
      by (simp add: delete_post_def login_required_authenticated delete_post_body_def)
  }
  {
    assume c: "comment \<in> set (Comment_objects db) \<and> comment_author comment \<noteq> user_id u"
    then have na: "\<not> is_author request (comment_author comment)"
      using assms(2) by (auto simp: is_author_authenticated)
    from c have g: "get_object_or_404
           (filter (\<lambda>c. comment_id c = comment_id comment) (Comment_objects db)) = Inr comment"
      using dc by (simp add: get_comment_present)
    show "edit_comment F db now request i (comment_id comment) =
            Inr (Redirect (Post_detail_url i), db)"
      using na g assms(2)
      by (simp add: edit_comment_def login_required_authenticated edit_comment_body_def)
    show "delete_comment db now request i (comment_id comment) =
            Inr (Redirect (Post_detail_url i), db)"
      using na g assms(2)
      by (simp add: delete_comment_def login_required_authenticated delete_comment_body_def)
  }
qed

theorem non_author_change_redirects_witness:
  "edit_post sample_forms sample_db 100
     (sample_request (Some bob) ''POST'' [(''title'', ''mine''), (''text'', ''mine'')]) 1 =
     Inr (Redirect (Post_detail_url 1), sample_db) \<and>
   delete_post sample_db 100
     (sample_request (Some bob) ''POST'' [(''title'', ''mine''), (''text'', ''mine'')]) 1 =
     Inr (Redirect (Post_detail_url 1), sample_db) \<and>
   edit_comment sample_forms sample_db 100
     (sample_request (Some bob) ''POST'' [(''title'', ''mine''), (''text'', ''mine'')]) 1 2 =
     Inr (Redirect (Post_detail_url 1), sample_db) \<and>
   delete_comment sample_db 100
     (sample_request (Some bob) ''POST'' [(''title'', ''mine''), (''text'', ''mine'')]) 1 2 =
     Inr (Redirect (Post_detail_url 1), sample_db)"
proof -
  let ?r = "sample_request (Some bob) ''POST'' [(''title'', ''mine''), (''text'', ''mine'')]"
  have u: "user ?r = Some bob" by (simp add: sample_defs)
  have h: "post_A \<in> set (Post_objects sample_db) \<and> post_author post_A \<noteq> user_id bob"
    "comment_2 \<in> set (Comment_objects sample_db) \<and> comment_author comment_2 \<noteq> user_id bob"
    "post_id post_A = 1" "comment_id comment_2 = 2"
    by (simp_all add: sample_defs)
  from non_author_change_redirects [OF unique_keys_sample u, where post = post_A and comment = comment_2
      and F = sample_forms and now = 100 and i = 1] h
  show ?thesis by simp
qed

text \<open>
  C7.  When the author asks to delete a stored post or comment, a POST request deletes it
  and any other method, GET among them, renders the confirmation page and leaves the
  database as it was.
\<close>

theorem delete_only_on_post_request:
  assumes "unique_keys db" and "user request = Some u"
  shows "(post \<in> set (Post_objects db) \<and> post_author post = user_id u \<longrightarrow>
            delete_post db now request (post_id post) =
              (if http_method request = ''POST''
               then Inr (Redirect Index_url, Post_delete db post)
               else Inr (Render ''blog/create.html''
                           (Form_context (Form (or_None (POST request)) (Some post))), db)) \<and>
            post \<notin> set (Post_objects (Post_delete db post))) \<and>
         (comment \<in> set (Comment_objects db) \<and> comment_author comment = user_id u \<longrightarrow>
            delete_comment db now request i (comment_id comment) =
              (if http_method request = ''POST''
               then Inr (Redirect (Post_detail_url i), Comment_delete db comment)
               else Inr (Render ''blog/comment.html'' (Comment_context comment None), db)) \<and>
            comment \<notin> set (Comment_objects (Comment_delete db comment)))"
proof (intro conjI impI)
  from assms(1) have d: "distinct (map post_id (Post_objects db))"
    and dc: "distinct (map comment_id (Comment_objects db))"
    by (simp_all add: unique_keys_def)
  {
    assume p: "post \<in> set (Post_objects db) \<and> post_author post = user_id u"
    then have a: "is_author request (post_author post)"
      using assms(2) by (simp add: is_author_authenticated)
    from p have g: "get_object_or_404 (Post_filter db [Q_id (post_id post)] (Post_objects db)) = Inr post"
      using d by (simp add: get_post_present)
    show "delete_post db now request (post_id post) =
              (if http_method request = ''POST''
               then Inr (Redirect Index_url, Post_delete db post)
               else Inr (Render ''blog/create.html''
                           (Form_context (Form (or_None (POST request)) (Some post))), db))"
      using a g assms(2)
      by (simp add: delete_post_def login_required_authenticated delete_post_body_def)
    show "post \<notin> set (Post_objects (Post_delete db post))"
      by (simp add: Post_delete_def split: prod.splits)
  }
  {
    assume c: "comment \<in> set (Comment_objects db) \<and> comment_author comment = user_id u"
    then have a: "is_author request (comment_author comment)"
      using assms(2) by (simp add: is_author_authenticated)
    from c have g: "get_object_or_404
           (filter (\<lambda>c. comment_id c = comment_id comment) (Comment_objects db)) = Inr comment"
      using dc by (simp add: get_comment_present)
    show "delete_comment db now request i (comment_id comment) =
              (if http_method request = ''POST''
               then Inr (Redirect (Post_detail_url i), Comment_delete db comment)
               else Inr (Render ''blog/comment.html'' (Comment_context comment None), db))"
      using a g assms(2)
      by (simp add: delete_comment_def login_required_authenticated delete_comment_body_def)
    show "comment \<notin> set (Comment_objects (Comment_delete db comment))"
      by (simp add: Comment_delete_def)
  }
qed

theorem delete_only_on_post_request_witness:
  "delete_post sample_db 100 (sample_request (Some alice) ''GET'' []) 1 =
     Inr (Render ''blog/create.html'' (Form_context (Form None (Some post_A))), sample_db) \<and>
   delete_post sample_db 100 (sample_request (Some alice) ''POST'' []) 1 =
     Inr (Redirect Index_url, Post_delete sample_db post_A) \<and>
   Post_objects (Post_delete sample_db post_A) = [post_B, post_C] \<and>
   Comment_objects (Post_delete sample_db post_A) = [] \<and>
   delete_comment sample_db 100 (sample_request (Some alice) ''GET'' []) 1 2 =
     Inr (Render ''blog/comment.html'' (Comment_context comment_2 None), sample_db) \<and>
   delete_comment sample_db 100 (sample_request (Some alice) ''POST'' []) 1 2 =
     Inr (Redirect (Post_detail_url 1), Comment_delete sample_db comment_2) \<and>
   Comment_objects (Comment_delete sample_db comment_2) = [comment_1]"
proof -
  let ?g = "sample_request (Some alice) ''GET'' []"
  let ?p = "sample_request (Some alice) ''POST'' []"
  have u: "user ?g = Some alice" "user ?p = Some alice" by (simp_all add: sample_defs)
  have h: "post_A \<in> set (Post_objects sample_db) \<and> post_author post_A = user_id alice"
    "comment_2 \<in> set (Comment_objects sample_db) \<and> comment_author comment_2 = user_id alice"
    "post_id post_A = 1" "comment_id comment_2 = 2"
    by (simp_all add: sample_defs)
  have m: "http_method ?g = ''GET''" "http_method ?p = ''POST''" "or_None (POST ?g) = None"
    by (simp_all add: sample_defs or_None_def)
  have e: "Post_objects (Post_delete sample_db post_A) = [post_B, post_C]"
    "Comment_objects (Post_delete sample_db post_A) = []"
    "Comment_objects (Comment_delete sample_db comment_2) = [comment_1]"
    by (simp_all add: sample_defs Post_delete_def Comment_delete_def collect_def
        Comment_post_on_delete_def)
  from delete_only_on_post_request [OF unique_keys_sample u(1), where post = post_A and comment = comment_2
      and now = 100 and i = 1]
    delete_only_on_post_request [OF unique_keys_sample u(2), where post = post_A and comment = comment_2
      and now = 100 and i = 1] h m e
  show ?thesis by simp
qed

section \<open>Form validation failure\<close>

lemma cleaned_None_iff: "cleaned cls f = None \<longleftrightarrow> \<not> is_valid cls f"
  by (simp add: cleaned_def is_valid_def split: option.splits)

lemma invalid_bound_has_errors:
  "\<not> is_valid cls f \<Longrightarrow> form_data f \<noteq> None \<Longrightarrow> form_errors cls f \<noteq> []"
  by (simp add: is_valid_def)

text \<open>
  C6 as the specification words it: a submission whose data fails validation re-renders
  the form.  In the sample state \<open>add_comment\<close> answers an empty comment text with a
  redirect to the detail view.
\<close>

theorem add_comment_invalid_redirects_counterexample:
  "\<not> is_valid (CommentForm sample_forms)
       (Form (or_None (POST (sample_request (Some bob) ''POST'' [(''text'', [])]))) None) \<and>
   add_comment sample_forms sample_db 100 (sample_request (Some bob) ''POST'' [(''text'', [])]) 1 =
     Inr (Redirect (Post_detail_url 1), sample_db)"
  by (simp add: sample_defs is_valid_def form_errors_def cleaned_def or_None_def add_comment_def
      login_required_def add_comment_body_def Post_filter_def)

text \<open>
  C6, amended.  When the form a handler builds from the request is not valid, the handler
  changes nothing in the database.  For an authenticated requester, \<open>create_post\<close>, and
  \<open>edit_post\<close> and \<open>edit_comment\<close> on the author's own object, render their template again
  with that form; when data was submitted the form is bound to it and has field errors.
  \<open>add_comment\<close> renders no form: it redirects to the detail view of the post.  Each
  handler depends on the validity of its own form only.
\<close>

theorem invalid_form_not_persisted:
  "(\<not> is_valid (PostForm F) (Form (data_or_files (POST request) (FILES request)) None) \<longrightarrow>
      (create_post F db now request = Inr (r, db') \<longrightarrow> db' = db) \<and>
      (user request = Some u \<longrightarrow>
         create_post F db now request =
           Inr (Render ''blog/create.html''
                  (Form_context (Form (data_or_files (POST request) (FILES request)) None)), db)) \<and>
      (data_or_files (POST request) (FILES request) \<noteq> None \<longrightarrow>
         form_errors (PostForm F) (Form (data_or_files (POST request) (FILES request)) None) \<noteq> [])) \<and>
   ((\<forall>p \<in> set (Post_objects db). post_id p = i \<longrightarrow>
        \<not> is_valid (PostForm F) (Form (or_None (POST request)) (Some p))) \<longrightarrow>
      edit_post F db now request i = Inr (r, db') \<longrightarrow> db' = db) \<and>
   (unique_keys db \<and> user request = Some u \<and> post \<in> set (Post_objects db) \<and>
    post_author post = user_id u \<and>
    \<not> is_valid (PostForm F) (Form (or_None (POST request)) (Some post)) \<longrightarrow>
      edit_post F db now request (post_id post) =
        Inr (Render ''blog/create.html''
               (Form_context (Form (or_None (POST request)) (Some post))), db) \<and>
      (POST request \<noteq> [] \<longrightarrow>
         form_errors (PostForm F) (Form (or_None (POST request)) (Some post)) \<noteq> [])) \<and>
   ((\<forall>c \<in> set (Comment_objects db). comment_id c = j \<longrightarrow>
        \<not> is_valid (CommentForm F) (Form (or_None (POST request)) (Some c))) \<longrightarrow>
      edit_comment F db now request i j = Inr (r, db') \<longrightarrow> db' = db) \<and>
   (unique_keys db \<and> user request = Some u \<and> comment \<in> set (Comment_objects db) \<and>
    comment_author comment = user_id u \<and>
    \<not> is_valid (CommentForm F) (Form (or_None (POST request)) (Some comment)) \<longrightarrow>
      edit_comment F db now request i (comment_id comment) =
        Inr (Render ''blog/comment.html''
               (Comment_context comment (Some (Form (or_None (POST request)) (Some comment)))),
             db) \<and>
      (POST request \<noteq> [] \<longrightarrow>
         form_errors (CommentForm F) (Form (or_None (POST request)) (Some comment)) \<noteq> [])) \<and>
   (\<not> is_valid (CommentForm F) (Form (or_None (POST request)) None) \<longrightarrow>
      (add_comment F db now request i = Inr (r, db') \<longrightarrow> db' = db) \<and>
      (unique_keys db \<and> user request = Some u \<and> post \<in> set (Post_objects db) \<longrightarrow>
         add_comment F db now request (post_id post) =
           Inr (Redirect (Post_detail_url (post_id post)), db)))"
proof (intro conjI impI)
  assume inv: "\<not> is_valid (PostForm F) (Form (data_or_files (POST request) (FILES request)) None)"
  then have c: "cleaned (PostForm F) (Form (data_or_files (POST request) (FILES request)) None) = None"
    by (simp add: cleaned_None_iff)
  show "db' = db" if "create_post F db now request = Inr (r, db')"
    using that c
    by (auto simp: create_post_def login_required_def create_post_body_def split: if_splits)
  show "create_post F db now request =
          Inr (Render ''blog/create.html''
                 (Form_context (Form (data_or_files (POST request) (FILES request)) None)), db)"
    if "user request = Some u"
    using that c by (simp add: create_post_def login_required_authenticated create_post_body_def)
  show "form_errors (PostForm F) (Form (data_or_files (POST request) (FILES request)) None) \<noteq> []"
    if "data_or_files (POST request) (FILES request) \<noteq> None"
    using inv that by (intro invalid_bound_has_errors) simp_all
next
  assume inv: "\<forall>p \<in> set (Post_objects db). post_id p = i \<longrightarrow>
        \<not> is_valid (PostForm F) (Form (or_None (POST request)) (Some p))"
    and e: "edit_post F db now request i = Inr (r, db')"
  show "db' = db"
  proof (cases "get_object_or_404 (Post_filter db [Q_id i] (Post_objects db))")
    case (Inl err)
    with e show ?thesis
      by (auto simp: edit_post_def login_required_def edit_post_body_def split: if_splits)
  next
    case (Inr p)
    then have "filter (\<lambda>p. post_id p = i) (Post_objects db) = [p]"
      by (cases "filter (\<lambda>p. post_id p = i) (Post_objects db)" rule: get_object_or_404.cases)
        (simp_all add: Post_filter_id)
    then have "p \<in> set (filter (\<lambda>p. post_id p = i) (Post_objects db))" by simp
    then have "p \<in> set (Post_objects db)" "post_id p = i" by simp_all
    with inv have "cleaned (PostForm F) (Form (or_None (POST request)) (Some p)) = None"
      by (simp add: cleaned_None_iff)
    with e Inr show ?thesis
      by (auto simp: edit_post_def login_required_def edit_post_body_def split: if_splits)
  qed
next
  assume h: "unique_keys db \<and> user request = Some u \<and> post \<in> set (Post_objects db) \<and>
    post_author post = user_id u \<and>
    \<not> is_valid (PostForm F) (Form (or_None (POST request)) (Some post))"
  then have d: "distinct (map post_id (Post_objects db))" by (simp add: unique_keys_def)
  from h have a: "is_author request (post_author post)"
    by (simp add: is_author_authenticated)
  from h d have g: "get_object_or_404 (Post_filter db [Q_id (post_id post)] (Post_objects db)) = Inr post"
    by (simp add: get_post_present)
  from h have c: "cleaned (PostForm F) (Form (or_None (POST request)) (Some post)) = None"
    by (simp add: cleaned_None_iff)
  show "edit_post F db now request (post_id post) =
        Inr (Render ''blog/create.html''
               (Form_context (Form (or_None (POST request)) (Some post))), db)"
    using a g c h by (simp add: edit_post_def login_required_authenticated edit_post_body_def)
  show "form_errors (PostForm F) (Form (or_None (POST request)) (Some post)) \<noteq> []"
    if "POST request \<noteq> []"
    using h that by (intro invalid_bound_has_errors) (simp_all add: or_None_def)
next
  assume inv: "\<forall>c \<in> set (Comment_objects db). comment_id c = j \<longrightarrow>
        \<not> is_valid (CommentForm F) (Form (or_None (POST request)) (Some c))"
    and e: "edit_comment F db now request i j = Inr (r, db')"
  show "db' = db"
  proof (cases "get_object_or_404 (filter (\<lambda>c. comment_id c = j) (Comment_objects db))")
    case (Inl err)
    with e show ?thesis
      by (auto simp: edit_comment_def login_required_def edit_comment_body_def split: if_splits)
  next
    case (Inr c)
    then have "filter (\<lambda>c. comment_id c = j) (Comment_objects db) = [c]"
      by (cases "filter (\<lambda>c. comment_id c = j) (Comment_objects db)"
          rule: get_object_or_404.cases) simp_all
    then have "c \<in> set (filter (\<lambda>c. comment_id c = j) (Comment_objects db))" by simp
    then have "c \<in> set (Comment_objects db)" "comment_id c = j" by simp_all
    with inv have "cleaned (CommentForm F) (Form (or_None (POST request)) (Some c)) = None"
      by (simp add: cleaned_None_iff)
    with e Inr show ?thesis
      by (auto simp: edit_comment_def login_required_def edit_comment_body_def split: if_splits)
  qed
next
  assume h: "unique_keys db \<and> user request = Some u \<and> comment \<in> set (Comment_objects db) \<and>
    comment_author comment = user_id u \<and>
    \<not> is_valid (CommentForm F) (Form (or_None (POST request)) (Some comment))"
  then have d: "distinct (map comment_id (Comment_objects db))" by (simp add: unique_keys_def)
  from h have a: "is_author request (comment_author comment)"
    by (simp add: is_author_authenticated)
  from h d have g: "get_object_or_404
           (filter (\<lambda>c. comment_id c = comment_id comment) (Comment_objects db)) = Inr comment"
    by (simp add: get_comment_present)
  from h have c: "cleaned (CommentForm F) (Form (or_None (POST request)) (Some comment)) = None"
    by (simp add: cleaned_None_iff)
  show "edit_comment F db now request i (comment_id comment) =
        Inr (Render ''blog/comment.html''
               (Comment_context comment (Some (Form (or_None (POST request)) (Some comment)))),
             db)"
    using a g c h
    by (simp add: edit_comment_def login_required_authenticated edit_comment_body_def)
  show "form_errors (CommentForm F) (Form (or_None (POST request)) (Some comment)) \<noteq> []"
    if "POST request \<noteq> []"
    using h that by (intro invalid_bound_has_errors) (simp_all add: or_None_def)
next
  assume inv: "\<not> is_valid (CommentForm F) (Form (or_None (POST request)) None)"
  then have c: "cleaned (CommentForm F) (Form (or_None (POST request)) None) = None"
    by (simp add: cleaned_None_iff)
  show "db' = db" if "add_comment F db now request i = Inr (r, db')"
    using that c
    by (auto simp: add_comment_def login_required_def add_comment_body_def
        split: if_splits sum.splits)
  show "add_comment F db now request (post_id post) =
          Inr (Redirect (Post_detail_url (post_id post)), db)"
    if h: "unique_keys db \<and> user request = Some u \<and> post \<in> set (Post_objects db)"
  proof -
    from h have "distinct (map post_id (Post_objects db))" by (simp add: unique_keys_def)
    with h have "get_object_or_404 (Post_filter db [Q_id (post_id post)] (Post_objects db)) = Inr post"
      by (simp add: get_post_present)
    with h c show ?thesis
      by (simp add: add_comment_def login_required_authenticated add_comment_body_def)
  qed
qed

theorem invalid_form_not_persisted_witness:
  "is_valid (CommentForm sample_forms) (Form (Some [(''text'', ''hi'')]) None) \<and>
   create_post sample_forms sample_db 100 (sample_request (Some alice) ''POST'' [(''text'', ''hi'')]) =
     Inr (Render ''blog/create.html'' (Form_context (Form (Some [(''text'', ''hi'')]) None)),
          sample_db) \<and>
   form_errors (PostForm sample_forms) (Form (Some [(''text'', ''hi'')]) None) \<noteq> [] \<and>
   edit_post sample_forms sample_db 100 (sample_request (Some alice) ''POST'' [(''text'', ''hi'')]) 1 =
     Inr (Render ''blog/create.html''
            (Form_context (Form (Some [(''text'', ''hi'')]) (Some post_A))), sample_db) \<and>
   edit_comment sample_forms sample_db 100
     (sample_request (Some alice) ''POST'' [(''title'', ''T'')]) 1 2 =
     Inr (Render ''blog/comment.html''
            (Comment_context comment_2 (Some (Form (Some [(''title'', ''T'')]) (Some comment_2)))),
          sample_db) \<and>
   form_errors (CommentForm sample_forms) (Form (Some [(''title'', ''T'')]) (Some comment_2)) \<noteq> [] \<and>
   add_comment sample_forms sample_db 100
     (sample_request (Some alice) ''POST'' [(''title'', ''T'')]) 1 =
     Inr (Redirect (Post_detail_url 1), sample_db)"
proof -
  let ?r1 = "sample_request (Some alice) ''POST'' [(''text'', ''hi'')]"
  let ?r2 = "sample_request (Some alice) ''POST'' [(''title'', ''T'')]"
  have d: "data_or_files (POST ?r1) (FILES ?r1) = Some [(''text'', ''hi'')]"
    "or_None (POST ?r1) = Some [(''text'', ''hi'')]"
    "or_None (POST ?r2) = Some [(''title'', ''T'')]"
    "POST ?r1 \<noteq> []" "POST ?r2 \<noteq> []"
    by (simp_all add: sample_request_def data_or_files_def or_None_def)
  have u: "user ?r1 = Some alice" "user ?r2 = Some alice"
    by (simp_all add: sample_request_def)
  have v: "is_valid (CommentForm sample_forms) (Form (Some [(''text'', ''hi'')]) None)"
    "\<not> is_valid (PostForm sample_forms) (Form (Some [(''text'', ''hi'')]) None)"
    "\<not> is_valid (PostForm sample_forms) (Form (Some [(''text'', ''hi'')]) (Some post_A))"
    "\<not> is_valid (CommentForm sample_forms) (Form (Some [(''title'', ''T'')]) (Some comment_2))"
    "\<not> is_valid (CommentForm sample_forms) (Form (Some [(''title'', ''T'')]) None)"
    by (simp_all add: sample_forms_def is_valid_def form_errors_def)
  have m: "post_A \<in> set (Post_objects sample_db)" "post_author post_A = user_id alice"
    "comment_2 \<in> set (Comment_objects sample_db)" "comment_author comment_2 = user_id alice"
    "post_id post_A = 1" "comment_id comment_2 = 2"
    by (simp_all add: sample_defs)
  note t1 = invalid_form_not_persisted [where F = sample_forms and db = sample_db and now = 100 and request = ?r1
      and u = alice and post = post_A, unfolded d]
  note t2 = invalid_form_not_persisted [where F = sample_forms and db = sample_db and now = 100 and request = ?r2
      and u = alice and post = post_A and comment = comment_2 and i = 1, unfolded d]
  from t1 v(2) u(1) have 1:
    "create_post sample_forms sample_db 100 ?r1 =
       Inr (Render ''blog/create.html'' (Form_context (Form (Some [(''text'', ''hi'')]) None)),
            sample_db)"
    "form_errors (PostForm sample_forms) (Form (Some [(''text'', ''hi'')]) None) \<noteq> []"
    by blast+
  from t1 unique_keys_sample u(1) m(1,2) v(3) d(4) have 2:
    "edit_post sample_forms sample_db 100 ?r1 (post_id post_A) =
       Inr (Render ''blog/create.html''
              (Form_context (Form (Some [(''text'', ''hi'')]) (Some post_A))), sample_db)"
    by blast
  from t2 unique_keys_sample u(2) m(3,4) v(4) d(5) have 3:
    "edit_comment sample_forms sample_db 100 ?r2 1 (comment_id comment_2) =
       Inr (Render ''blog/comment.html''
              (Comment_context comment_2 (Some (Form (Some [(''title'', ''T'')]) (Some comment_2)))),
            sample_db)"
    "form_errors (CommentForm sample_forms) (Form (Some [(''title'', ''T'')]) (Some comment_2)) \<noteq> []"
    by blast+
  from t2 unique_keys_sample u(2) m(1) v(5) have 4:
    "add_comment sample_forms sample_db 100 ?r2 (post_id post_A) =
       Inr (Redirect (Post_detail_url (post_id post_A)), sample_db)"
    by blast
  from v(1) 1 2 3 4 show ?thesis by (simp add: m(5,6))
qed

section \<open>Deleting referenced rows\<close>

text \<open>
  C9.  Deleting a location or a category keeps every post, each with its fields unchanged
  but for the reference to the deleted row, which becomes null; deleting a post deletes
  exactly its comments; deleting a user deletes exactly that user's posts.
\<close>

theorem on_delete_effects:
  "Post_objects (Location_delete db lid) =
     map (\<lambda>p. if post_location p = Some lid then p\<lparr>post_location := None\<rparr> else p)
       (Post_objects db) \<and>
   Post_objects (Category_delete db cid) =
     map (\<lambda>p. if post_category p = Some cid then p\<lparr>post_category := None\<rparr> else p)
       (Post_objects db) \<and>
   Comment_objects (Post_delete db post) =
     filter (\<lambda>c. comment_post c \<noteq> post_id post) (Comment_objects db) \<and>
   Post_objects (User_delete db uid) =
     filter (\<lambda>p. post_author p \<noteq> uid) (Post_objects db)"
  by (simp add: Location_delete_def Category_delete_def Post_delete_def User_delete_def
      collect_def Post_location_on_delete_def Post_category_on_delete_def
      Comment_post_on_delete_def Post_author_on_delete_def Comment_author_on_delete_def)

theorem on_delete_effects_witness:
  "Post_objects (Location_delete sample_db 1) =
     [post_A\<lparr>post_location := None\<rparr>, post_B, post_C] \<and>
   Post_objects (Category_delete sample_db 1) =
     [post_A\<lparr>post_category := None\<rparr>, post_B\<lparr>post_category := None\<rparr>, post_C] \<and>
   Comment_objects (Post_delete sample_db post_A) = [] \<and>
   Post_objects (User_delete sample_db 1) = []"
proof -
  have p: "Post_objects sample_db = [post_A, post_B, post_C]"
    "Comment_objects sample_db = [comment_1, comment_2]"
    by (simp_all add: sample_db_def)
  have f: "post_location post_A = Some 1" "post_location post_B = None"
    "post_location post_C = None" "post_category post_A = Some 1"
    "post_category post_B = Some 1" "post_category post_C = None"
    "post_author post_A = 1" "post_author post_B = 1" "post_author post_C = 1"
    "post_id post_A = 1" "comment_post comment_1 = 1" "comment_post comment_2 = 1"
    by (simp_all add: post_A_def post_B_def post_C_def comment_1_def comment_2_def)
  from on_delete_effects [of sample_db 1 1 post_A 1] show ?thesis
    by (simp add: p f)
qed

section \<open>Comment submission on the detail endpoint\<close>

lemma PostDetailView_post_body_anonymous:
  assumes "user request = None"
    and "PostDetailView_get_object db now request i = Inr object"
    and "is_valid (CommentForm F) (Form (Some (POST request)) None)"
  shows "PostDetailView_post_body F db now request i = Inl ValueError"
  using assms
  by (simp add: PostDetailView_post_body_def cleaned_def user_instance_def)

text \<open>
  C10.  The claim has a valid comment submitted to the detail page persisted, with no
  login check.  In the sample state a valid text posted to the detail page of the visible
  post A raises \<open>TypeError\<close>, for bob and for the anonymous requester alike, because the
  handler is called with the keyword \<open>post_id\<close> that \<open>post(self, request)\<close> does not take:
  nothing is persisted and nothing is redirected.  \<open>add_comment\<close> sends the anonymous
  requester to the login page.
\<close>

theorem detail_comment_submission_raises:
  "is_valid (CommentForm sample_forms) (Form (Some [(''text'', ''hi'')]) None) \<and>
   PostDetailView_get_object sample_db 100
     (sample_request (Some bob) ''POST'' [(''text'', ''hi'')]) 1 = Inr post_A \<and>
   PostDetailView_post sample_forms sample_db 100
     (sample_request (Some bob) ''POST'' [(''text'', ''hi'')]) 1 = Inl TypeError \<and>
   PostDetailView_post sample_forms sample_db 100
     (sample_request None ''POST'' [(''text'', ''hi'')]) 1 = Inl TypeError \<and>
   add_comment sample_forms sample_db 100
     (sample_request None ''POST'' [(''text'', ''hi'')]) 1 = Inr (Redirect Login_url, sample_db)"
  by (simp add: sample_defs is_valid_def form_errors_def PostDetailView_get_object_def
      Post_filter_def is_author_def PostDetailView_post_def call_with_kwargs_def
      add_comment_def login_required_def)

end
